theory Spec2Isabelle
  imports Complex_Main "HOL-Library.Sublist" "HOL-Library.AList"
begin

section \<open>Python numbers\<close>

text \<open>
  The scores of the program are Python \<^verbatim>\<open>int\<close>s and \<^verbatim>\<open>float\<close>s. Both are modelled by
  the rational number they denote. An arithmetic operation on floats is the exact
  operation followed by \<open>fl\<close>, the rounding of IEEE 754 binary64 (53 significant bits,
  round to nearest, ties to even). The model covers the normal range of binary64: no
  overflow to infinity, no subnormal numbers, no NaN.
\<close>

function bitlen :: "int \<Rightarrow> int" where
  "bitlen n = (if n \<le> 0 then 0 else 1 + bitlen (n div 2))"
  by pat_completeness auto
termination
  by (relation "measure nat") auto

declare bitlen.simps [simp del]

definition round_half_even :: "rat \<Rightarrow> int" where
  "round_half_even x =
     (let f = \<lfloor>x\<rfloor>; d = x - of_int f
      in if d < 1 / 2 then f
         else if 1 / 2 < d then f + 1
         else if even f then f else f + 1)"

text \<open>\<open>binary_exponent x\<close> is the \<open>k\<close> with \<open>2 ^ k \<le> \<bar>x\<bar> < 2 ^ (k + 1)\<close>, for \<open>x \<noteq> 0\<close>.\<close>

definition binary_exponent :: "rat \<Rightarrow> int" where
  "binary_exponent x =
     (let (a, b) = quotient_of \<bar>x\<bar>;
          k = bitlen a - bitlen b
      in if 2 powi k \<le> \<bar>x\<bar> then k else k - 1)"

definition fl :: "rat \<Rightarrow> rat" where
  "fl x =
     (if x = 0 then 0
      else let e = binary_exponent x - 52
           in of_int (round_half_even (x / 2 powi e)) * 2 powi e)"

text \<open>Python's \<^verbatim>\<open>a * b\<close>, \<^verbatim>\<open>a + b\<close> and \<^verbatim>\<open>a / b\<close> where an operand is a float.\<close>

definition fmul :: "rat \<Rightarrow> rat \<Rightarrow> rat" where
  "fmul a b = fl (a * b)"

definition fadd :: "rat \<Rightarrow> rat \<Rightarrow> rat" where
  "fadd a b = fl (a + b)"

definition fdiv :: "rat \<Rightarrow> rat \<Rightarrow> rat" where
  "fdiv a b = fl (a / b)"

text \<open>
  Python's \<^verbatim>\<open>round(x, 2)\<close> on a float: the exact value of \<open>x\<close> is rounded to two decimal
  places, ties to even, and the decimal result is converted back to the nearest float.
\<close>

definition py_round2 :: "rat \<Rightarrow> rat" where
  "py_round2 x = fl (of_int (round_half_even (x * 100)) / 100)"

text \<open>Python's \<^verbatim>\<open>int(x)\<close> on a float truncates towards zero.\<close>

definition py_int :: "rat \<Rightarrow> int" where
  "py_int x = (if 0 \<le> x then \<lfloor>x\<rfloor> else \<lceil>x\<rceil>)"

section \<open>Letter grades\<close>

text \<open>\<^verbatim>\<open>QuizGraderAgent._calculate_letter_grade\<close> (agents/quiz_grader.py).\<close>

definition calculate_letter_grade :: "rat \<Rightarrow> string" where
  "calculate_letter_grade percentage =
     (if percentage \<ge> 90 then ''A''
      else if percentage \<ge> 80 then ''B''
      else if percentage \<ge> 70 then ''C''
      else if percentage \<ge> 60 then ''D''
      else ''F'')"

text \<open>\<^verbatim>\<open>VideoAnalyzerAgent._calculate_letter_grade\<close> (agents/video_analyzer.py).\<close>

definition va_calculate_letter_grade :: "rat \<Rightarrow> string" where
  "va_calculate_letter_grade percentage =
     (if percentage \<ge> 90 then ''A''
      else if percentage \<ge> 80 then ''B''
      else if percentage \<ge> 70 then ''C''
      else if percentage \<ge> 60 then ''D''
      else ''F'')"

text \<open>\<^verbatim>\<open>FinalResultsManager._calculate_final_grade\<close> (utils/video_utils.py).\<close>

definition calculate_final_grade :: "rat \<Rightarrow> string" where
  "calculate_final_grade score =
     (if score \<ge> 90 then ''A''
      else if score \<ge> 80 then ''B''
      else if score \<ge> 70 then ''C''
      else if score \<ge> 60 then ''D''
      else ''F'')"

text \<open>The order of the letter grades, from the worst to the best.\<close>

definition grade_rank :: "string \<Rightarrow> nat" where
  "grade_rank g =
     (if g = ''A'' then 4 else if g = ''B'' then 3 else if g = ''C'' then 2
      else if g = ''D'' then 1 else 0)"

section \<open>Python strings\<close>

text \<open>
  A Python string is a sequence of code points; the model has the code points below 256,
  one \<^typ>\<open>char\<close> each. \<open>is_space\<close> is \<^verbatim>\<open>str.isspace\<close> on one character and
  \<open>lower_char\<close> is \<^verbatim>\<open>str.lower\<close> on one character, both for that range.
\<close>

definition is_space :: "char \<Rightarrow> bool" where
  "is_space c =
     (let n = (of_char c :: nat)
      in (9 \<le> n \<and> n \<le> 13) \<or> (28 \<le> n \<and> n \<le> 32) \<or> n = 133 \<or> n = 160)"

definition lower_char :: "char \<Rightarrow> char" where
  "lower_char c =
     (let n = (of_char c :: nat)
      in if (65 \<le> n \<and> n \<le> 90) \<or> (192 \<le> n \<and> n \<le> 222 \<and> n \<noteq> 215)
         then char_of (n + 32) else c)"

definition lower :: "string \<Rightarrow> string" where
  "lower s = map lower_char s"

definition strip :: "string \<Rightarrow> string" where
  "strip s = rev (dropWhile is_space (rev (dropWhile is_space s)))"

text \<open>
  \<^verbatim>\<open>s.split()\<close>: the maximal runs of characters that are not whitespace. The second
  argument is the run being read.
\<close>

fun split_ws :: "string \<Rightarrow> string \<Rightarrow> string list" where
  "split_ws [] w = (if w = [] then [] else [w])"
| "split_ws (c # cs) w =
     (if is_space c then (if w = [] then split_ws cs [] else w # split_ws cs [])
      else split_ws cs (w @ [c]))"

definition split :: "string \<Rightarrow> string list" where
  "split s = split_ws s []"

text \<open>\<^verbatim>\<open>d.get(key, default)\<close> on a dictionary whose key may be absent.\<close>

definition get_or :: "'a \<Rightarrow> 'a option \<Rightarrow> 'a" where
  "get_or d x = (case x of None \<Rightarrow> d | Some v \<Rightarrow> v)"

section \<open>Fallback quiz grading (agents/quiz\_grader.py)\<close>

record question_result =
  qres_question_number :: nat
  qres_student_answer :: string
  qres_correct_answer :: string
  qres_is_correct :: bool
  qres_points_earned :: nat
  qres_feedback :: string


text \<open>The body of the loop of \<^verbatim>\<open>_create_basic_grading\<close> for the question of index \<open>i\<close>.\<close>

definition grade_question :: "string list \<Rightarrow> string list \<Rightarrow> nat \<Rightarrow> question_result" where
  "grade_question student_answers correct_answers i =
     (let student_answer = (if i < length student_answers then student_answers ! i else []);
          correct_answer = (if i < length correct_answers then correct_answers ! i else []);
          is_correct = (lower (strip student_answer) = lower (strip correct_answer))
      in \<lparr>qres_question_number = i + 1,
          qres_student_answer = student_answer,
          qres_correct_answer = correct_answer,
          qres_is_correct = is_correct,
          qres_points_earned = (if is_correct then 1 else 0),
          qres_feedback = (if is_correct then ''Correct!''
                      else ''Incorrect. The correct answer is: '' @ correct_answer)\<rparr>)"



section \<open>The record store (database/local\_storage.py)\<close>

text \<open>
  The records are Python dictionaries. A key that the readers fetch with \<^verbatim>\<open>get\<close> may be
  absent, so its field is an option. Only the keys read by the code below are modelled.
\<close>

record quiz_result =
  qr_id :: "string option"
  qr_student_id :: "string option"
  qr_score_percentage :: "rat option"
  qr_grade :: "string option"
  qr_feedback :: "string option"

record video_submission =
  vs_id :: "string option"
  vs_student_id :: "string option"
  vs_video_link :: "string option"
  vs_topic :: "string option"
  vs_submitted_at :: "string option"
  vs_status :: "string option"
  vs_file_id :: "string option"
  vs_direct_link :: "string option"
  vs_video_score :: "rat option"
  vs_video_grade :: "string option"
  vs_video_feedback :: "string option"

record final_result =
  fr_id :: "string option"
  fr_student_id :: string
  fr_quiz_score :: rat
  fr_video_score :: rat
  fr_total_score :: rat
  fr_final_grade :: string
  fr_selected :: bool
  fr_released_at :: string
  fr_status :: string

text \<open>
  Every collection is a JSON object from generated identifiers to records, kept in the order
  of insertion. \<open>st_uuid\<close> and \<open>st_write_fails\<close> are the environment of the store: the
  identifier that \<^verbatim>\<open>uuid.uuid4()\<close> returns at the \<open>n\<close>-th insertion and whether the write of
  the file raises at that insertion; \<open>st_clock\<close> counts the insertions made so far.
  \<open>st_notified\<close> is a ghost field: the addresses for which \<^verbatim>\<open>_send_final_selection_email\<close>
  and \<^verbatim>\<open>_send_video_submission_email\<close> have tried to send a message.
\<close>

record store =
  st_results :: "(string \<times> quiz_result) list"
  st_videos :: "(string \<times> video_submission) list"
  st_final_results :: "(string \<times> final_result) list"
  st_uuid :: "nat \<Rightarrow> string"
  st_write_fails :: "nat \<Rightarrow> bool"
  st_clock :: nat
  st_notified :: "string list"

definition get_all_results :: "store \<Rightarrow> quiz_result list" where
  "get_all_results st = map (\<lambda>(result_id, r). r\<lparr>qr_id := Some result_id\<rparr>) (st_results st)"

definition get_all_videos :: "store \<Rightarrow> video_submission list" where
  "get_all_videos st = map (\<lambda>(video_id, v). v\<lparr>vs_id := Some video_id\<rparr>) (st_videos st)"

text \<open>The first video whose \<^verbatim>\<open>student_id\<close> is the given one, with its identifier.\<close>

fun find_video :: "string \<Rightarrow> (string \<times> video_submission) list \<Rightarrow> video_submission option" where
  "find_video student_id [] = None"
| "find_video student_id ((video_id, v) # vs) =
     (if vs_student_id v = Some student_id then Some (v\<lparr>vs_id := Some video_id\<rparr>)
      else find_video student_id vs)"

definition get_video_by_student :: "string \<Rightarrow> store \<Rightarrow> video_submission option" where
  "get_video_by_student student_id st = find_video student_id (st_videos st)"

text \<open>
  \<^verbatim>\<open>add_video_submission\<close> and \<^verbatim>\<open>add_final_result\<close>: a new identifier is drawn, the record
  is stored under it and the file is written. When the write raises, the exception is caught,
  the result is the empty string and the collection is as before.
\<close>

definition add_video_submission :: "video_submission \<Rightarrow> store \<Rightarrow> string \<times> store" where
  "add_video_submission video_data st =
     (let video_id = st_uuid st (st_clock st);
          st1 = st\<lparr>st_clock := st_clock st + 1\<rparr>
      in if st_write_fails st (st_clock st) then ([], st1)
         else (video_id,
               st1\<lparr>st_videos :=
                     AList.update video_id (video_data\<lparr>vs_id := Some video_id\<rparr>) (st_videos st)\<rparr>))"


section \<open>Regular expressions of the link validation\<close>

text \<open>
  The three patterns of \<^verbatim>\<open>validate_google_drive_link\<close> are sequences of three kinds of
  items: a literal character, the lazy \<^verbatim>\<open>.*?\<close> (any characters but the newline, as few as
  possible) and the group \<^verbatim>\<open>([a-zA-Z0-9_-]+)\<close> (one or more identifier characters, as
  many as possible, captured).
\<close>

datatype re_item = Lit char | AnyLazy | IdGroup

definition id_char :: "char \<Rightarrow> bool" where
  "id_char c =
     (let n = (of_char c :: nat)
      in (97 \<le> n \<and> n \<le> 122) \<or> (65 \<le> n \<and> n \<le> 90) \<or> (48 \<le> n \<and> n \<le> 57) \<or>
         c = CHR ''_'' \<or> c = CHR ''-'')"

definition newline :: char where
  "newline = char_of (10 :: nat)"

text \<open>
  The backtracking matcher of \<^verbatim>\<open>re\<close>: \<open>re_match p s g\<close> matches the pattern \<open>p\<close> at the start
  of \<open>s\<close> and returns the text of the group (\<open>g\<close> when the pattern has none).
  \<open>re_group p s n\<close> tries the group on the first \<open>n\<close>, \<open>n - 1\<close>, ..., \<open>1\<close> characters of \<open>s\<close>.
\<close>

function re_match :: "re_item list \<Rightarrow> string \<Rightarrow> string \<Rightarrow> string option"
  and re_group :: "re_item list \<Rightarrow> string \<Rightarrow> nat \<Rightarrow> string option" where
  "re_match [] s g = Some g"
| "re_match (Lit c # p) s g =
     (case s of [] \<Rightarrow> None | x # xs \<Rightarrow> if x = c then re_match p xs g else None)"
| "re_match (AnyLazy # p) s g =
     (case re_match p s g of
        Some r \<Rightarrow> Some r
      | None \<Rightarrow>
          (case s of [] \<Rightarrow> None
           | x # xs \<Rightarrow> if x = newline then None else re_match (AnyLazy # p) xs g))"
| "re_match (IdGroup # p) s g = re_group p s (length (takeWhile id_char s))"
| "re_group p s 0 = None"
| "re_group p s (Suc n) =
     (case re_match p (drop (Suc n) s) (take (Suc n) s) of
        Some r \<Rightarrow> Some r
      | None \<Rightarrow> re_group p s n)"
  by pat_completeness auto
termination
  by (relation "measures
        [\<lambda>x. case x of Inl (p, s, g) \<Rightarrow> 2 * length p | Inr (p, s, n) \<Rightarrow> 2 * length p + 1,
         \<lambda>x. case x of Inl (p, s, g) \<Rightarrow> length s | Inr (p, s, n) \<Rightarrow> n]") auto

text \<open>\<^verbatim>\<open>re.search\<close>: the match at the leftmost position where the pattern matches.\<close>

fun re_search :: "re_item list \<Rightarrow> string \<Rightarrow> string option" where
  "re_search p [] = re_match p [] []"
| "re_search p (x # xs) =
     (case re_match p (x # xs) [] of Some g \<Rightarrow> Some g | None \<Rightarrow> re_search p xs)"

definition drive_patterns :: "re_item list list" where
  "drive_patterns =
     [map Lit ''https://drive.google.com/file/d/'' @ [IdGroup],
      map Lit ''https://drive.google.com/open?id='' @ [IdGroup],
      map Lit ''https://docs.google.com/'' @ [AnyLazy] @ map Lit ''/d/'' @ [IdGroup]]"

text \<open>The strings that a pattern matches as a whole.\<close>

fun re_lang :: "re_item list \<Rightarrow> string set" where
  "re_lang [] = {[]}"
| "re_lang (Lit c # p) = {c # w | w. w \<in> re_lang p}"
| "re_lang (AnyLazy # p) = {u @ w | u w. newline \<notin> set u \<and> w \<in> re_lang p}"
| "re_lang (IdGroup # p) = {u @ w | u w. u \<noteq> [] \<and> (\<forall>c \<in> set u. id_char c) \<and> w \<in> re_lang p}"

section \<open>Video analyzer (agents/video\_analyzer.py)\<close>

record link_validation =
  lv_valid :: bool
  lv_message :: string
  lv_file_id :: "string option"
  lv_direct_link :: "string option"
  lv_accessible :: "bool option"

text \<open>The loop over the patterns, left at the first one that is found in the link.\<close>

fun first_match :: "re_item list list \<Rightarrow> string \<Rightarrow> string option" where
  "first_match [] video_link = None"
| "first_match (pattern # patterns) video_link =
     (case re_search pattern video_link of
        Some file_id \<Rightarrow> Some file_id
      | None \<Rightarrow> first_match patterns video_link)"

text \<open>
  \<open>head\<close> is the network: the status code that \<^verbatim>\<open>requests.head\<close> gets for a URL, or \<open>None\<close>
  when the request raises.
\<close>

definition validate_google_drive_link :: "(string \<Rightarrow> nat option) \<Rightarrow> string \<Rightarrow> link_validation" where
  "validate_google_drive_link head video_link =
     (let file_id = first_match drive_patterns video_link
      in if file_id = None \<or> file_id = Some []
         then \<lparr>lv_valid = False,
               lv_message =
                 ''Invalid Google Drive link format. Please provide a valid Google Drive video link.'',
               lv_file_id = None, lv_direct_link = None, lv_accessible = None\<rparr>
         else let direct_link = ''https://drive.google.com/file/d/'' @ the file_id @ ''/view'';
                  accessible =
                    (case head direct_link of
                       Some status_code \<Rightarrow> status_code = 200 \<or> status_code = 302
                     | None \<Rightarrow> True)
              in \<lparr>lv_valid = True,
                  lv_message = ''Valid Google Drive link'',
                  lv_file_id = file_id,
                  lv_direct_link = Some direct_link,
                  lv_accessible = Some accessible\<rparr>)"




section \<open>Video submission and final results (utils/video\_utils.py)\<close>

record submit_report =
  sr_success :: bool
  sr_message :: string
  sr_video_id :: "string option"

text \<open>
  \<^verbatim>\<open>_send_video_submission_email\<close> and \<^verbatim>\<open>_send_final_selection_email\<close> catch every
  exception of the sending; what they do to the store is the attempt, recorded in the ghost
  field.
\<close>

definition send_video_submission_email :: "string \<Rightarrow> string \<Rightarrow> store \<Rightarrow> store" where
  "send_video_submission_email student_email video_id st =
     st\<lparr>st_notified := st_notified st @ [student_email]\<rparr>"

text \<open>
  \<open>now\<close> is the text of \<^verbatim>\<open>datetime.now().isoformat()\<close>; \<open>new_video_data\<close> is the dictionary
  \<^verbatim>\<open>video_data\<close> that \<^verbatim>\<open>submit_video\<close> builds.
\<close>

definition new_video_data ::
  "string \<Rightarrow> string \<Rightarrow> string \<Rightarrow> string \<Rightarrow> link_validation \<Rightarrow> video_submission" where
  "new_video_data now student_id video_link topic validation =
     \<lparr>vs_id = None,
      vs_student_id = Some student_id,
      vs_video_link = Some video_link,
      vs_topic = Some topic,
      vs_submitted_at = Some now,
      vs_status = Some ''submitted'',
      vs_file_id = Some (get_or [] (lv_file_id validation)),
      vs_direct_link = Some (get_or video_link (lv_direct_link validation)),
      vs_video_score = None,
      vs_video_grade = None,
      vs_video_feedback = None\<rparr>"

definition submit_video ::
  "(string \<Rightarrow> nat option) \<Rightarrow> string \<Rightarrow> string \<Rightarrow> string \<Rightarrow> string \<Rightarrow> string \<Rightarrow> store \<Rightarrow>
   submit_report \<times> store" where
  "submit_video head now student_id student_email video_link topic st =
     (let validation = validate_google_drive_link head video_link
      in if \<not> lv_valid validation
         then (\<lparr>sr_success = False, sr_message = lv_message validation, sr_video_id = None\<rparr>, st)
         else
           (case get_video_by_student student_id st of
              Some existing_video \<Rightarrow>
                (\<lparr>sr_success = False,
                  sr_message =
                    ''You have already submitted a video. Only one submission is allowed per student.'',
                  sr_video_id = None\<rparr>, st)
            | None \<Rightarrow>
                (let video_data = new_video_data now student_id video_link topic validation;
                     (video_id, st1) = add_video_submission video_data st
                 in if video_id \<noteq> []
                    then (\<lparr>sr_success = True,
                           sr_message =
                             ''Video submitted successfully! You will receive a confirmation email shortly.'',
                           sr_video_id = Some video_id\<rparr>,
                          send_video_submission_email student_email video_id st1)
                    else (\<lparr>sr_success = False,
                           sr_message = ''Failed to save video submission. Please try again.'',
                           sr_video_id = None\<rparr>, st1))))"

text \<open>
  The entries of \<^verbatim>\<open>combined_results\<close>. The key \<^verbatim>\<open>video_link\<close> exists only after a video has
  been merged into the entry.
\<close>

record combined_result =
  cr_student_id :: string
  cr_quiz_score :: rat
  cr_quiz_grade :: string
  cr_quiz_feedback :: string
  cr_quiz_submitted :: bool
  cr_video_score :: rat
  cr_video_grade :: string
  cr_video_feedback :: string
  cr_video_submitted :: bool
  cr_total_score :: rat
  cr_final_grade :: string
  cr_video_link :: "string option"

text \<open>
  The dictionary \<^verbatim>\<open>combined_results\<close> is the list of its items in the order of insertion:
  assigning to a key that exists replaces the value where it is, a new key goes to the end.
  \<open>new_entry\<close> is the entry that the first loop of \<^verbatim>\<open>calculate_combined_results\<close> stores for a
  quiz result, \<open>update_entry\<close> the \<^verbatim>\<open>update\<close> of the second loop, \<open>score_result\<close> the body of
  the third.
\<close>

definition new_entry :: "string \<Rightarrow> quiz_result \<Rightarrow> combined_result" where
  "new_entry student_id quiz_result =
     \<lparr>cr_student_id = student_id,
      cr_quiz_score = get_or 0 (qr_score_percentage quiz_result),
      cr_quiz_grade = get_or ''F'' (qr_grade quiz_result),
      cr_quiz_feedback = get_or [] (qr_feedback quiz_result),
      cr_quiz_submitted = True,
      cr_video_score = 0,
      cr_video_grade = ''Not Submitted'',
      cr_video_feedback = ''No video submission'',
      cr_video_submitted = False,
      cr_total_score = 0,
      cr_final_grade = ''Incomplete'',
      cr_video_link = None\<rparr>"

definition seed_quiz_result ::
  "quiz_result \<Rightarrow> (string \<times> combined_result) list \<Rightarrow> (string \<times> combined_result) list" where
  "seed_quiz_result quiz_result combined_results =
     (let student_id = get_or [] (qr_student_id quiz_result)
      in if student_id \<noteq> []
         then AList.update student_id (new_entry student_id quiz_result) combined_results
         else combined_results)"

definition update_entry :: "video_submission \<Rightarrow> combined_result \<Rightarrow> combined_result" where
  "update_entry video_result entry =
     entry\<lparr>cr_video_score := get_or 0 (vs_video_score video_result),
           cr_video_grade := get_or ''Pending'' (vs_video_grade video_result),
           cr_video_feedback := get_or [] (vs_video_feedback video_result),
           cr_video_submitted := True,
           cr_video_link := Some (get_or [] (vs_video_link video_result))\<rparr>"

definition merge_video_result ::
  "video_submission \<Rightarrow> (string \<times> combined_result) list \<Rightarrow> (string \<times> combined_result) list" where
  "merge_video_result video_result combined_results =
     (let student_id = get_or [] (vs_student_id video_result)
      in if student_id \<in> set (map fst combined_results)
         then AList.map_entry student_id (update_entry video_result) combined_results
         else combined_results)"

definition quiz_weight :: rat where
  "quiz_weight = fl (6 / 10)"

definition video_weight :: rat where
  "video_weight = fl (4 / 10)"

definition score_result :: "combined_result \<Rightarrow> combined_result" where
  "score_result result =
     (let total_score =
            (if cr_video_submitted result
             then fadd (fmul (cr_quiz_score result) quiz_weight)
                       (fmul (cr_video_score result) video_weight)
             else fmul (cr_quiz_score result) quiz_weight)
      in result\<lparr>cr_total_score := py_round2 total_score,
                cr_final_grade := calculate_final_grade total_score\<rparr>)"

text \<open>
  The methods of \<^verbatim>\<open>FinalResultsManager\<close> work on the shared store, so each returns the store
  it leaves with its result.
\<close>

definition calculate_combined_results :: "store \<Rightarrow> combined_result list \<times> store" where
  "calculate_combined_results st =
     (let quiz_results = get_all_results st;
          video_results = get_all_videos st;
          combined_results = fold seed_quiz_result quiz_results [];
          combined_results = fold merge_video_result video_results combined_results
      in (map (\<lambda>(student_id, result). score_result result) combined_results, st))"

text \<open>
  \<^verbatim>\<open>sorted(..., key=..., reverse=True)\<close> is a stable sort by the decreasing key, that is the
  stable sort \<^const>\<open>sort_key\<close> by the negated key.
\<close>

definition select_top_students :: "rat \<Rightarrow> store \<Rightarrow> combined_result list \<times> store" where
  "select_top_students percentage st =
     (let (combined_results, st1) = calculate_combined_results st;
          sorted_results = sort_key (\<lambda>x. - cr_total_score x) combined_results;
          total_students = length sorted_results;
          num_to_select = max 1 (py_int (fmul (of_nat total_students) (fdiv percentage 100)));
          top_students = take (nat num_to_select) sorted_results
      in (top_students, st1))"






text \<open>
  A store for the examples below: the student \<open>s1\<close> has two quiz results, 50 and then 80,
  and no video; \<open>s2\<close> has the quiz result 80 and a video of score 90; \<open>s3\<close> has only a video;
  one quiz result has no student id.
\<close>

definition example_store :: store where
  "example_store =
     \<lparr>st_results =
        [(''r1'', \<lparr>qr_id = Some ''r1'', qr_student_id = Some ''s1'', qr_score_percentage = Some 50,
                  qr_grade = Some ''F'', qr_feedback = Some ''first''\<rparr>),
         (''r2'', \<lparr>qr_id = Some ''r2'', qr_student_id = Some ''s2'', qr_score_percentage = Some 80,
                  qr_grade = Some ''B'', qr_feedback = Some ''good''\<rparr>),
         (''r3'', \<lparr>qr_id = Some ''r3'', qr_student_id = Some ''s1'', qr_score_percentage = Some 80,
                  qr_grade = Some ''B'', qr_feedback = Some ''second''\<rparr>),
         (''r4'', \<lparr>qr_id = Some ''r4'', qr_student_id = None, qr_score_percentage = Some 99,
                  qr_grade = Some ''A'', qr_feedback = None\<rparr>)],
      st_videos =
        [(''v1'', \<lparr>vs_id = Some ''v1'', vs_student_id = Some ''s2'',
                  vs_video_link = Some ''https://drive.google.com/file/d/abc/view'',
                  vs_topic = Some ''General'', vs_submitted_at = Some ''2025-01-01'',
                  vs_status = Some ''analyzed'', vs_file_id = Some ''abc'',
                  vs_direct_link = Some ''https://drive.google.com/file/d/abc/view'',
                  vs_video_score = Some 90, vs_video_grade = Some ''A'',
                  vs_video_feedback = Some ''fine''\<rparr>),
         (''v2'', \<lparr>vs_id = Some ''v2'', vs_student_id = Some ''s3'',
                  vs_video_link = Some ''https://drive.google.com/file/d/xyz/view'',
                  vs_topic = Some ''General'', vs_submitted_at = Some ''2025-01-02'',
                  vs_status = Some ''analyzed'', vs_file_id = Some ''xyz'',
                  vs_direct_link = Some ''https://drive.google.com/file/d/xyz/view'',
                  vs_video_score = Some 70, vs_video_grade = Some ''C'',
                  vs_video_feedback = Some ''ok''\<rparr>)],
      st_final_results = [],
      st_uuid = (\<lambda>n. ''id'' @ replicate n CHR ''x''),
      st_write_fails = (\<lambda>n. n = 1),
      st_clock = 0,
      st_notified = []\<rparr>"

text \<open>
  A store of \<open>n\<close> students, each with one quiz result and no video: the student of index \<open>i\<close>
  has the id \<open>s\<close> repeated \<open>i + 1\<close> times and the quiz score \<open>i\<close>.
\<close>

definition class_store :: "nat \<Rightarrow> store" where
  "class_store n =
     \<lparr>st_results =
        map (\<lambda>i. (replicate (Suc i) CHR ''r'',
                  \<lparr>qr_id = Some (replicate (Suc i) CHR ''r''),
                   qr_student_id = Some (replicate (Suc i) CHR ''s''),
                   qr_score_percentage = Some (of_nat i),
                   qr_grade = None, qr_feedback = None\<rparr>)) [0..<n],
      st_videos = [],
      st_final_results = [],
      st_uuid = (\<lambda>n. ''id'' @ replicate n CHR ''x''),
      st_write_fails = (\<lambda>n. False),
      st_clock = 0,
      st_notified = []\<rparr>"

section \<open>Properties of the letter grades\<close>

lemma fl_899_10: "fl (899 / 10) = 3163075050785997 / 35184372088832"
  by code_simp

lemma fl_599_10: "fl (599 / 10) = 8430175552484147 / 140737488355328"
  by code_simp

text \<open>
  Claim C3. The letter grade of a percentage \<open>x\<close> is A from 90, B from 80 to below 90,
  C from 70 to below 80, D from 60 to below 70 and F below 60, every band containing its
  lower bound. So the grades of 90, 89.9, 60 and 59.9 (the floats written so) are A, B, D
  and F, and a smaller percentage never has a better grade. The grade functions of the
  quiz grader, of the video analyzer and of the final results are the same function.
\<close>

theorem letter_grade_bands:
  "(calculate_letter_grade x = ''A'' \<longleftrightarrow> 90 \<le> x) \<and>
   (calculate_letter_grade x = ''B'' \<longleftrightarrow> 80 \<le> x \<and> x < 90) \<and>
   (calculate_letter_grade x = ''C'' \<longleftrightarrow> 70 \<le> x \<and> x < 80) \<and>
   (calculate_letter_grade x = ''D'' \<longleftrightarrow> 60 \<le> x \<and> x < 70) \<and>
   (calculate_letter_grade x = ''F'' \<longleftrightarrow> x < 60) \<and>
   calculate_letter_grade 90 = ''A'' \<and>
   calculate_letter_grade (fl (899 / 10)) = ''B'' \<and>
   calculate_letter_grade 60 = ''D'' \<and>
   calculate_letter_grade (fl (599 / 10)) = ''F'' \<and>
   (x \<le> y \<longrightarrow>
      grade_rank (calculate_letter_grade x) \<le> grade_rank (calculate_letter_grade y)) \<and>
   va_calculate_letter_grade = calculate_letter_grade \<and>
   calculate_final_grade = calculate_letter_grade"
proof -
  have bands:
    "(calculate_letter_grade x = ''A'' \<longleftrightarrow> 90 \<le> x) \<and>
     (calculate_letter_grade x = ''B'' \<longleftrightarrow> 80 \<le> x \<and> x < 90) \<and>
     (calculate_letter_grade x = ''C'' \<longleftrightarrow> 70 \<le> x \<and> x < 80) \<and>
     (calculate_letter_grade x = ''D'' \<longleftrightarrow> 60 \<le> x \<and> x < 70) \<and>
     (calculate_letter_grade x = ''F'' \<longleftrightarrow> x < 60)"
    by (simp add: calculate_letter_grade_def)
  have points:
    "calculate_letter_grade 90 = ''A'' \<and>
     calculate_letter_grade (fl (899 / 10)) = ''B'' \<and>
     calculate_letter_grade 60 = ''D'' \<and>
     calculate_letter_grade (fl (599 / 10)) = ''F''"
    by (simp add: calculate_letter_grade_def fl_899_10 fl_599_10)
  have mono:
    "x \<le> y \<longrightarrow>
       grade_rank (calculate_letter_grade x) \<le> grade_rank (calculate_letter_grade y)"
    by (simp add: calculate_letter_grade_def grade_rank_def)
  have same: "va_calculate_letter_grade = calculate_letter_grade"
    "calculate_final_grade = calculate_letter_grade"
    by (rule ext, simp add: va_calculate_letter_grade_def calculate_final_grade_def
        calculate_letter_grade_def)+
  from bands points mono same show ?thesis
    by blast
qed

theorem letter_grade_bands_witness:
  "(85 :: rat) \<le> 95 \<and>
   grade_rank (calculate_letter_grade 85) \<le> grade_rank (calculate_letter_grade 95) \<and>
   calculate_letter_grade 85 = ''B'' \<and> calculate_letter_grade 95 = ''A''"
  using letter_grade_bands [of 85 95]
  by (simp add: calculate_letter_grade_def)

section \<open>Properties of the float rounding\<close>








section \<open>Properties of the aggregator\<close>


lemma keys_seed:
  "set (map fst (fold seed_quiz_result qs [])) =
     set (filter (\<lambda>s. s \<noteq> []) (map (\<lambda>q. get_or [] (qr_student_id q)) qs))"
proof (induction qs rule: rev_induct)
  case Nil
  then show ?case by simp
next
  case (snoc q qs)
  then show ?case
    by (auto simp: seed_quiz_result_def Let_def AList.dom_update)
qed

lemma distinct_seed: "distinct (map fst (fold seed_quiz_result qs []))"
  by (induction qs rule: rev_induct) (auto simp: seed_quiz_result_def Let_def AList.distinct_update)

lemma map_of_seed:
  assumes "sid \<noteq> []"
  shows "map_of (fold seed_quiz_result qs []) sid =
     (case filter (\<lambda>q. get_or [] (qr_student_id q) = sid) qs of
        [] \<Rightarrow> None
      | f # fs \<Rightarrow> Some (new_entry sid (last (f # fs))))"
proof (induction qs rule: rev_induct)
  case Nil
  then show ?case by simp
next
  case (snoc q qs)
  then show ?case using assms
    by (auto simp: seed_quiz_result_def Let_def AList.update_conv' split: list.splits)
qed

lemma seed_entries:
  "(k, e) \<in> set (fold seed_quiz_result qs []) \<Longrightarrow>
   k \<noteq> [] \<and> e = new_entry k (last (filter (\<lambda>q. get_or [] (qr_student_id q) = k) qs))"
proof -
  assume a: "(k, e) \<in> set (fold seed_quiz_result qs [])"
  then have k: "k \<in> set (map fst (fold seed_quiz_result qs []))"
    by (metis fst_conv image_eqI set_map)
  then have ne: "k \<noteq> []"
    unfolding keys_seed by simp
  from a have "map_of (fold seed_quiz_result qs []) k = Some e"
    using distinct_seed by (metis map_of_is_SomeI)
  with ne show ?thesis
    by (auto simp: map_of_seed split: list.splits)
qed

lemma keys_map_entry: "map fst (AList.map_entry k f al) = map fst al"
  by (induction al) auto

lemma keys_merge: "map fst (merge_video_result v c) = map fst c"
  by (simp add: merge_video_result_def Let_def keys_map_entry)

lemma keys_fold_merge: "map fst (fold merge_video_result vs c) = map fst c"
  by (induction vs arbitrary: c) (simp_all add: keys_merge)

lemma map_of_map_entry_k:
  "map_of (AList.map_entry k f al) k' =
     (if k' = k then map_option f (map_of al k) else map_of al k')"
  by (induction al) auto

lemma map_of_merge:
  "map_of (merge_video_result v c) k =
     (if get_or [] (vs_student_id v) = k then map_option (update_entry v) (map_of c k)
      else map_of c k)"
proof (cases "get_or [] (vs_student_id v) \<in> fst ` set c")
  case True
  then show ?thesis
    by (simp add: merge_video_result_def Let_def map_of_map_entry_k)
next
  case False
  then have "map_of c (get_or [] (vs_student_id v)) = None"
    by (simp add: map_of_eq_None_iff)
  with False show ?thesis
    by (auto simp: merge_video_result_def Let_def)
qed

lemma map_of_fold_merge:
  "map_of (fold merge_video_result vs c) k =
     map_option (fold update_entry (filter (\<lambda>v. get_or [] (vs_student_id v) = k) vs)) (map_of c k)"
proof (induction vs arbitrary: c)
  case Nil
  then show ?case by (simp add: option.map_ident)
next
  case (Cons v vs)
  then show ?case
    by (simp add: map_of_merge option.map_comp comp_def)
qed

lemma fold_update_entry_quiz:
  "cr_student_id (fold update_entry vs e) = cr_student_id e \<and>
   cr_quiz_score (fold update_entry vs e) = cr_quiz_score e \<and>
   cr_quiz_grade (fold update_entry vs e) = cr_quiz_grade e \<and>
   cr_quiz_feedback (fold update_entry vs e) = cr_quiz_feedback e"
  by (induction vs arbitrary: e) (simp_all add: update_entry_def)



lemma merged_entries:
  assumes "(k, e) \<in> set (fold merge_video_result vs (fold seed_quiz_result qs []))"
  shows "k \<noteq> [] \<and>
         e = fold update_entry (filter (\<lambda>v. get_or [] (vs_student_id v) = k) vs)
               (new_entry k (last (filter (\<lambda>q. get_or [] (qr_student_id q) = k) qs)))"
proof -
  let ?seeded = "fold seed_quiz_result qs []"
  let ?merged = "fold merge_video_result vs ?seeded"
  have "distinct (map fst ?merged)"
    by (simp add: keys_fold_merge distinct_seed)
  then have "map_of ?merged k = Some e"
    using assms by (rule map_of_is_SomeI)
  then obtain e0 where e0: "map_of ?seeded k = Some e0"
    and e: "e = fold update_entry (filter (\<lambda>v. get_or [] (vs_student_id v) = k) vs) e0"
    by (auto simp: map_of_fold_merge)
  from e0 have "(k, e0) \<in> set ?seeded"
    by (rule map_of_SomeD)
  then have "k \<noteq> [] \<and>
      e0 = new_entry k (last (filter (\<lambda>q. get_or [] (qr_student_id q) = k) qs))"
    by (rule seed_entries)
  with e show ?thesis by simp
qed

lemma merged_student_id:
  "(k, e) \<in> set (fold merge_video_result vs (fold seed_quiz_result qs [])) \<Longrightarrow>
   cr_student_id e = k"
  by (drule merged_entries) (simp add: fold_update_entry_quiz new_entry_def)

lemma score_result_fields:
  "cr_student_id (score_result e) = cr_student_id e \<and>
   cr_quiz_score (score_result e) = cr_quiz_score e \<and>
   cr_quiz_grade (score_result e) = cr_quiz_grade e \<and>
   cr_quiz_feedback (score_result e) = cr_quiz_feedback e \<and>
   cr_video_score (score_result e) = cr_video_score e \<and>
   cr_video_submitted (score_result e) = cr_video_submitted e"
  by (simp add: score_result_def Let_def)

lemma combined_student_ids:
  "map cr_student_id (fst (calculate_combined_results st)) =
   map fst (fold seed_quiz_result (get_all_results st) [])"
proof -
  let ?merged = "fold merge_video_result (get_all_videos st)
                   (fold seed_quiz_result (get_all_results st) [])"
  have "map cr_student_id (fst (calculate_combined_results st)) =
        map (\<lambda>(k, e). cr_student_id (score_result e)) ?merged"
    by (simp add: calculate_combined_results_def Let_def comp_def case_prod_unfold)
  also have "\<dots> = map fst ?merged"
    by (rule map_cong) (auto simp: score_result_fields merged_student_id)
  also have "\<dots> = map fst (fold seed_quiz_result (get_all_results st) [])"
    by (rule keys_fold_merge)
  finally show ?thesis .
qed

lemma combined_result_char:
  assumes "r \<in> set (fst (calculate_combined_results st))"
  shows "cr_student_id r \<noteq> [] \<and>
         r = score_result
               (fold update_entry
                  (filter (\<lambda>v. get_or [] (vs_student_id v) = cr_student_id r) (get_all_videos st))
                  (new_entry (cr_student_id r)
                     (last (filter (\<lambda>q. get_or [] (qr_student_id q) = cr_student_id r)
                              (get_all_results st)))))"
proof -
  from assms obtain k e
    where ke: "(k, e) \<in> set (fold merge_video_result (get_all_videos st)
                                (fold seed_quiz_result (get_all_results st) []))"
      and r: "r = score_result e"
    by (auto simp: calculate_combined_results_def Let_def)
  from ke have "cr_student_id e = k" by (rule merged_student_id)
  with r have "cr_student_id r = k" by (simp add: score_result_fields)
  with merged_entries [OF ke] r show ?thesis by simp
qed


lemma video_weight_val: "video_weight = 3602879701896397 / 9007199254740992"
  by code_simp




lemma example_results:
  "map (\<lambda>r. (cr_student_id r, cr_quiz_score r, cr_quiz_feedback r, cr_video_submitted r,
             cr_video_score r))
     (fst (calculate_combined_results example_store)) =
   [(''s1'', 80, ''second'', False, 0), (''s2'', 80, ''good'', True, 90)]"
  by (simp add: calculate_combined_results_def example_store_def get_all_results_def
      get_all_videos_def seed_quiz_result_def merge_video_result_def new_entry_def
      update_entry_def score_result_def get_or_def Let_def)


text \<open>
  Claim C5. The aggregator returns one combined result for each student id of the quiz
  results and for nothing else: the student ids of the combined results are distinct, and
  they are the student ids that the quiz results carry (a quiz result whose \<^verbatim>\<open>student_id\<close> is
  absent or empty carries none). The quiz fields of a combined result are those of the last
  quiz result of that student in the order of iteration. A video submission whose student
  has no quiz result gives no combined result.
\<close>

theorem combined_results_per_student:
  "distinct (map cr_student_id (fst (calculate_combined_results st))) \<and>
   set (map cr_student_id (fst (calculate_combined_results st))) =
     set (filter (\<lambda>s. s \<noteq> []) (map (\<lambda>q. get_or [] (qr_student_id q)) (get_all_results st))) \<and>
   (r \<in> set (fst (calculate_combined_results st)) \<longrightarrow>
      (let q = last (filter (\<lambda>q. get_or [] (qr_student_id q) = cr_student_id r)
                       (get_all_results st))
       in cr_quiz_score r = get_or 0 (qr_score_percentage q) \<and>
          cr_quiz_grade r = get_or ''F'' (qr_grade q) \<and>
          cr_quiz_feedback r = get_or [] (qr_feedback q))) \<and>
   (v \<in> set (get_all_videos st) \<and>
    get_or [] (vs_student_id v) \<notin>
      set (map (\<lambda>q. get_or [] (qr_student_id q)) (get_all_results st)) \<longrightarrow>
      get_or [] (vs_student_id v) \<notin>
        set (map cr_student_id (fst (calculate_combined_results st))))"
proof -
  have d: "distinct (map cr_student_id (fst (calculate_combined_results st)))"
    by (simp only: combined_student_ids distinct_seed)
  have s: "set (map cr_student_id (fst (calculate_combined_results st))) =
     set (filter (\<lambda>s. s \<noteq> []) (map (\<lambda>q. get_or [] (qr_student_id q)) (get_all_results st)))"
    by (simp only: combined_student_ids keys_seed)
  have q: "r \<in> set (fst (calculate_combined_results st)) \<longrightarrow>
      (let q = last (filter (\<lambda>q. get_or [] (qr_student_id q) = cr_student_id r)
                       (get_all_results st))
       in cr_quiz_score r = get_or 0 (qr_score_percentage q) \<and>
          cr_quiz_grade r = get_or ''F'' (qr_grade q) \<and>
          cr_quiz_feedback r = get_or [] (qr_feedback q))"
  proof
    assume "r \<in> set (fst (calculate_combined_results st))"
    then have req: "r = score_result
               (fold update_entry
                  (filter (\<lambda>v. get_or [] (vs_student_id v) = cr_student_id r) (get_all_videos st))
                  (new_entry (cr_student_id r)
                     (last (filter (\<lambda>q. get_or [] (qr_student_id q) = cr_student_id r)
                              (get_all_results st)))))"
      (is "r = score_result (fold update_entry ?vs (new_entry ?k ?q))")
      by (rule combined_result_char [THEN conjunct2])
    have f: "cr_quiz_score (score_result (fold update_entry ?vs (new_entry ?k ?q))) =
               get_or 0 (qr_score_percentage ?q) \<and>
             cr_quiz_grade (score_result (fold update_entry ?vs (new_entry ?k ?q))) =
               get_or ''F'' (qr_grade ?q) \<and>
             cr_quiz_feedback (score_result (fold update_entry ?vs (new_entry ?k ?q))) =
               get_or [] (qr_feedback ?q)"
      by (simp add: score_result_fields fold_update_entry_quiz new_entry_def)
    from f show "let q = ?q
       in cr_quiz_score r = get_or 0 (qr_score_percentage q) \<and>
          cr_quiz_grade r = get_or ''F'' (qr_grade q) \<and>
          cr_quiz_feedback r = get_or [] (qr_feedback q)"
      unfolding Let_def by (subst (1 3 5) req) 
  qed
  have v: "v \<in> set (get_all_videos st) \<and>
    get_or [] (vs_student_id v) \<notin>
      set (map (\<lambda>q. get_or [] (qr_student_id q)) (get_all_results st)) \<longrightarrow>
      get_or [] (vs_student_id v) \<notin>
        set (map cr_student_id (fst (calculate_combined_results st)))"
    unfolding s by auto
  from d s q v show ?thesis by blast
qed

theorem combined_results_per_student_witness:
  "fst (calculate_combined_results example_store) ! 0
     \<in> set (fst (calculate_combined_results example_store)) \<and>
   cr_student_id (fst (calculate_combined_results example_store) ! 0) = ''s1'' \<and>
   cr_quiz_score (fst (calculate_combined_results example_store) ! 0) = 80 \<and>
   cr_quiz_feedback (fst (calculate_combined_results example_store) ! 0) = ''second'' \<and>
   get_all_videos example_store ! 1 \<in> set (get_all_videos example_store) \<and>
   get_or [] (vs_student_id (get_all_videos example_store ! 1)) = ''s3'' \<and>
   ''s3'' \<notin> set (map (\<lambda>q. get_or [] (qr_student_id q)) (get_all_results example_store)) \<and>
   ''s3'' \<notin> set (map cr_student_id (fst (calculate_combined_results example_store))) \<and>
   distinct (map cr_student_id (fst (calculate_combined_results example_store)))"
proof -
  let ?rs = "fst (calculate_combined_results example_store)"
  let ?v = "get_all_videos example_store ! 1"
  note T = combined_results_per_student [of example_store "?rs ! 0" ?v]
  have len: "length ?rs = 2"
    using arg_cong [OF example_results, of length] by simp
  have "(cr_student_id (?rs ! 0), cr_quiz_score (?rs ! 0), cr_quiz_feedback (?rs ! 0),
         cr_video_submitted (?rs ! 0), cr_video_score (?rs ! 0)) = (''s1'', 80, ''second'', False, 0)"
    using arg_cong [OF example_results, of "\<lambda>l. l ! 0"] len by (simp only: nth_map nth_Cons_0)
  then have sid: "cr_student_id (?rs ! 0) = ''s1''" by simp
  have mem: "?rs ! 0 \<in> set ?rs" using len by simp
  have lastq:
    "last (filter (\<lambda>q. get_or [] (qr_student_id q) = ''s1'') (get_all_results example_store)) =
       \<lparr>qr_id = Some ''r3'', qr_student_id = Some ''s1'', qr_score_percentage = Some 80,
        qr_grade = Some ''B'', qr_feedback = Some ''second''\<rparr>"
    by (simp add: get_all_results_def example_store_def get_or_def)
  from T mem have
    "let q = last (filter (\<lambda>q. get_or [] (qr_student_id q) = cr_student_id (?rs ! 0))
                     (get_all_results example_store))
     in cr_quiz_score (?rs ! 0) = get_or 0 (qr_score_percentage q) \<and>
        cr_quiz_grade (?rs ! 0) = get_or ''F'' (qr_grade q) \<and>
        cr_quiz_feedback (?rs ! 0) = get_or [] (qr_feedback q)"
    by blast
  then have quiz: "cr_quiz_score (?rs ! 0) = 80 \<and> cr_quiz_feedback (?rs ! 0) = ''second''"
    unfolding sid lastq by (simp add: get_or_def)
  have vmem: "?v \<in> set (get_all_videos example_store)"
    by (simp add: get_all_videos_def example_store_def)
  have vid: "get_or [] (vs_student_id ?v) = ''s3''"
    by (simp add: get_all_videos_def example_store_def get_or_def)
  have qids: "''s3'' \<notin> set (map (\<lambda>q. get_or [] (qr_student_id q)) (get_all_results example_store))"
    by (simp add: get_all_results_def example_store_def get_or_def)
  from T vmem qids have nots3: "''s3'' \<notin> set (map cr_student_id ?rs)"
    unfolding vid by blast
  from T have d: "distinct (map cr_student_id ?rs)" by blast
  from mem sid quiz vmem vid qids nots3 d show ?thesis by blast
qed





section \<open>Properties of the selection\<close>

lemma select_20_of_10: "max 1 (py_int (fmul 10 (fdiv 20 100))) = 2"
  by code_simp

lemma select_0_of_10: "max 1 (py_int (fmul 10 (fdiv 0 100))) = 1"
  by code_simp

lemma select_58_of_50: "max 1 (py_int (fmul 50 (fdiv 58 100))) = 28"
  by code_simp

lemma fmul_50_58: "fmul 50 (fdiv 58 100) = 8162774324609023 / 281474976710656"
  by code_simp

lemma class_store_ids:
  "map (\<lambda>q. get_or [] (qr_student_id q)) (get_all_results (class_store n)) =
   map (\<lambda>i. replicate (Suc i) CHR ''s'') [0..<n]"
  by (simp add: class_store_def get_all_results_def get_or_def comp_def)

lemma class_store_size: "length (fst (calculate_combined_results (class_store n))) = n"
proof -
  let ?rs = "fst (calculate_combined_results (class_store n))"
  let ?ids = "map (\<lambda>i. replicate (Suc i) CHR ''s'') [0..<n]"
  have inj: "inj_on (\<lambda>i. replicate (Suc i) CHR ''s'') (set [0..<n])"
    by (rule inj_onI) (metis length_replicate nat.inject)
  then have d: "distinct ?ids" by (simp add: distinct_map)
  have "filter (\<lambda>s. s \<noteq> []) ?ids = ?ids"
    by (simp add: filter_id_conv)
  then have "set (map cr_student_id ?rs) = set ?ids"
    using combined_student_ids [of "class_store n"] keys_seed [of "get_all_results (class_store n)"]
    by (simp only: class_store_ids)
  moreover have "distinct (map cr_student_id ?rs)"
    by (simp only: combined_student_ids distinct_seed)
  ultimately have "length (map cr_student_id ?rs) = length ?ids"
    using d by (metis distinct_card)
  then show ?thesis by simp
qed

lemma select_top_students_eq:
  "fst (select_top_students p st) =
     take (nat (max 1 (py_int
             (fmul (of_nat (length (fst (calculate_combined_results st)))) (fdiv p 100)))))
       (sort_key (\<lambda>x. - cr_total_score x) (fst (calculate_combined_results st)))"
  by (simp add: select_top_students_def Let_def case_prod_unfold)

text \<open>
  Claim C2. The selection sorts the combined results by decreasing total score with a stable
  sort and returns the first \<^verbatim>\<open>max(1, int(total_students * (percentage / 100)))\<close> of them,
  computed in Python's float arithmetic. Ten students give 2 at 20 percent and 1 at 0
  percent, and no student gives the empty selection. The number is not always
  \<open>max 1 \<lfloor>total_students * p / 100\<rfloor>\<close>: for 50 students and 58 percent the float product is
  28.999999999999996, so 28 students are selected and not 29.
\<close>

theorem select_top_students_count:
  "fst (select_top_students p st) =
     take (nat (max 1 (py_int
             (fmul (of_nat (length (fst (calculate_combined_results st)))) (fdiv p 100)))))
       (sort_key (\<lambda>x. - cr_total_score x) (fst (calculate_combined_results st))) \<and>
   sorted (map (\<lambda>x. - cr_total_score x)
     (sort_key (\<lambda>x. - cr_total_score x) (fst (calculate_combined_results st)))) \<and>
   filter (\<lambda>x. cr_total_score x = t)
     (sort_key (\<lambda>x. - cr_total_score x) (fst (calculate_combined_results st))) =
   filter (\<lambda>x. cr_total_score x = t) (fst (calculate_combined_results st)) \<and>
   length (fst (select_top_students 20 (class_store 10))) = 2 \<and>
   length (fst (select_top_students 0 (class_store 10))) = 1 \<and>
   fst (select_top_students p (class_store 0)) = [] \<and>
   length (fst (select_top_students 58 (class_store 50))) = 28 \<and>
   max 1 \<lfloor>(50 :: rat) * 58 / 100\<rfloor> = 29"
proof -
  have stable: "filter (\<lambda>x. cr_total_score x = t)
     (sort_key (\<lambda>x. - cr_total_score x) (fst (calculate_combined_results st))) =
   filter (\<lambda>x. cr_total_score x = t) (fst (calculate_combined_results st))"
    using sort_key_stable [of "\<lambda>x. - cr_total_score x" "- t" "fst (calculate_combined_results st)"]
    by simp
  have a: "length (fst (select_top_students 20 (class_store 10))) = 2"
    by (simp add: select_top_students_eq class_store_size select_20_of_10)
  have b: "length (fst (select_top_students 0 (class_store 10))) = 1"
    by (simp add: select_top_students_eq class_store_size select_0_of_10)
  have "length (fst (select_top_students p (class_store 0))) = 0"
    by (simp add: select_top_students_eq class_store_size)
  then have c: "fst (select_top_students p (class_store 0)) = []" by simp
  have d: "length (fst (select_top_students 58 (class_store 50))) = 28"
    by (simp add: select_top_students_eq class_store_size select_58_of_50)
  have e: "max 1 \<lfloor>(50 :: rat) * 58 / 100\<rfloor> = 29" by simp
  from stable a b c d e show ?thesis
    by (simp only: select_top_students_eq sorted_sort_key simp_thms)
qed

section \<open>Properties of the release\<close>





section \<open>Properties of the video submission\<close>

lemma find_video_None:
  "(find_video student_id al = None) =
   (\<forall>kv \<in> set al. vs_student_id (snd kv) \<noteq> Some student_id)"
  by (induction al) (auto split: if_splits)

lemma filter_update_le:
  "length (filter (\<lambda>(k, v). P v) (AList.update k d al)) \<le>
   length (filter (\<lambda>(k, v). P v) al) + (if P d then 1 else 0)"
  by (induction al) auto

text \<open>
  Claim C8. When the store already holds a video submission of a student, a call of
  \<^verbatim>\<open>submit_video\<close> for that student fails with a message (the rejection of the second
  submission, or the rejection of the link when the link is not valid) and leaves the store as
  it is: no record is created. Every call of \<^verbatim>\<open>submit_video\<close> keeps the invariant that the
  store holds at most one video submission per student.
\<close>

theorem submit_video_once:
  assumes "submit_video head now student_id student_email video_link topic st = (r, st')"
  shows "((\<exists>(k, v) \<in> set (st_videos st). vs_student_id v = Some student_id) \<longrightarrow>
            \<not> sr_success r \<and> sr_video_id r = None \<and> st' = st \<and>
            (sr_message r =
               ''You have already submitted a video. Only one submission is allowed per student.'' \<or>
             sr_message r =
               ''Invalid Google Drive link format. Please provide a valid Google Drive video link.'')) \<and>
         ((\<forall>s. length (filter (\<lambda>(k, v). vs_student_id v = Some s) (st_videos st)) \<le> 1) \<longrightarrow>
          (\<forall>s. length (filter (\<lambda>(k, v). vs_student_id v = Some s) (st_videos st')) \<le> 1))"
proof -
  let ?val = "validate_google_drive_link head video_link"
  have msg: "\<not> lv_valid ?val \<Longrightarrow> lv_message ?val =
      ''Invalid Google Drive link format. Please provide a valid Google Drive video link.''"
    by (auto simp: validate_google_drive_link_def Let_def split: if_splits)
  have A: "(\<exists>(k, v) \<in> set (st_videos st). vs_student_id v = Some student_id) \<longrightarrow>
            \<not> sr_success r \<and> sr_video_id r = None \<and> st' = st \<and>
            (sr_message r =
               ''You have already submitted a video. Only one submission is allowed per student.'' \<or>
             sr_message r =
               ''Invalid Google Drive link format. Please provide a valid Google Drive video link.'')"
  proof
    assume "\<exists>(k, v) \<in> set (st_videos st). vs_student_id v = Some student_id"
    then obtain k v where kv: "(k, v) \<in> set (st_videos st)" "vs_student_id v = Some student_id"
      by blast
    have "find_video student_id (st_videos st) \<noteq> None"
    proof
      assume "find_video student_id (st_videos st) = None"
      then have "\<forall>kv \<in> set (st_videos st). vs_student_id (snd kv) \<noteq> Some student_id"
        by (simp only: find_video_None)
      with kv show False by force
    qed
    then obtain ex where ex: "get_video_by_student student_id st = Some ex"
      by (auto simp: get_video_by_student_def)
    show "\<not> sr_success r \<and> sr_video_id r = None \<and> st' = st \<and>
            (sr_message r =
               ''You have already submitted a video. Only one submission is allowed per student.'' \<or>
             sr_message r =
               ''Invalid Google Drive link format. Please provide a valid Google Drive video link.'')"
    proof (cases "lv_valid ?val")
      case True
      with assms ex show ?thesis
        by (auto simp: submit_video_def Let_def)
    next
      case False
      with assms msg show ?thesis
        by (auto simp: submit_video_def Let_def)
    qed
  qed
  have B: "(\<forall>s. length (filter (\<lambda>(k, v). vs_student_id v = Some s) (st_videos st)) \<le> 1) \<longrightarrow>
          (\<forall>s. length (filter (\<lambda>(k, v). vs_student_id v = Some s) (st_videos st')) \<le> 1)"
  proof (intro impI allI)
    fix s
    assume inv: "\<forall>s. length (filter (\<lambda>(k, v). vs_student_id v = Some s) (st_videos st)) \<le> 1"
    show "length (filter (\<lambda>(k, v). vs_student_id v = Some s) (st_videos st')) \<le> 1"
    proof (cases "st_videos st' = st_videos st")
      case True
      with inv show ?thesis by simp
    next
      case False
      with assms have valid: "lv_valid ?val"
        and none: "get_video_by_student student_id st = None"
        by (auto simp: submit_video_def Let_def split: option.splits if_splits)
      define d where "d = (new_video_data now student_id video_link topic ?val)
                            \<lparr>vs_id := Some (st_uuid st (st_clock st))\<rparr>"
      have d: "vs_student_id d = Some student_id"
        by (simp add: d_def new_video_data_def)
      from False assms valid none
      have upd: "st_videos st' = AList.update (st_uuid st (st_clock st)) d (st_videos st)"
        unfolding d_def
        by (auto simp: submit_video_def Let_def add_video_submission_def
            send_video_submission_email_def split: if_splits)
      from none have no: "filter (\<lambda>(k, v). vs_student_id v = Some student_id) (st_videos st) = []"
        by (force simp: get_video_by_student_def find_video_None filter_empty_conv)
      show ?thesis
      proof (cases "s = student_id")
        case True
        with filter_update_le [of "\<lambda>v. vs_student_id v = Some s" "st_uuid st (st_clock st)" d "st_videos st"]
          no d show ?thesis unfolding upd by simp
      next
        case False
        with filter_update_le [of "\<lambda>v. vs_student_id v = Some s" "st_uuid st (st_clock st)" d "st_videos st"]
          d inv [rule_format, of s] show ?thesis unfolding upd by simp
      qed
    qed
  qed
  from A B show ?thesis by blast
qed


lemma valid_link_example:
  "first_match drive_patterns ''https://drive.google.com/file/d/abc/view'' = Some ''abc''"
  by code_simp

lemma example_store_invariant:
  "\<forall>s. length (filter (\<lambda>(k, v). vs_student_id v = Some s) (st_videos example_store)) \<le> 1"
  by (simp add: example_store_def)

theorem submit_video_once_witness:
  "(case submit_video (\<lambda>u. None) ''t'' ''s2'' ''s2@example.com''
           ''https://drive.google.com/file/d/abc/view'' ''General'' example_store of
      (r, st') \<Rightarrow>
        (\<exists>(k, v) \<in> set (st_videos example_store). vs_student_id v = Some ''s2'') \<and>
        \<not> sr_success r \<and> st' = example_store \<and>
        sr_message r =
          ''You have already submitted a video. Only one submission is allowed per student.'') \<and>
   (case submit_video (\<lambda>u. None) ''t'' ''s1'' ''s1@example.com''
           ''https://drive.google.com/file/d/abc/view'' ''General'' example_store of
      (r, st') \<Rightarrow>
        sr_success r \<and> length (st_videos st') = 3 \<and>
        (\<forall>s. length (filter (\<lambda>(k, v). vs_student_id v = Some s) (st_videos st')) \<le> 1))"
proof -
  let ?link = "''https://drive.google.com/file/d/abc/view''"
  have valid: "lv_valid (validate_google_drive_link (\<lambda>u. None) ?link)"
    by (simp add: validate_google_drive_link_def valid_link_example Let_def)
  obtain r st' where eq: "submit_video (\<lambda>u. None) ''t'' ''s2'' ''s2@example.com'' ?link
      ''General'' example_store = (r, st')"
    by (cases "submit_video (\<lambda>u. None) ''t'' ''s2'' ''s2@example.com'' ?link ''General''
                 example_store")
  have has: "\<exists>(k, v) \<in> set (st_videos example_store). vs_student_id v = Some ''s2''"
    by (simp add: example_store_def)
  have "get_video_by_student ''s2'' example_store \<noteq> None"
    by (simp add: get_video_by_student_def example_store_def)
  with eq valid have msg: "sr_message r \<noteq>
      ''Invalid Google Drive link format. Please provide a valid Google Drive video link.''"
    by (auto simp: submit_video_def Let_def)
  from submit_video_once [OF eq] has msg
  have first: "\<not> sr_success r \<and> st' = example_store \<and>
        sr_message r =
          ''You have already submitted a video. Only one submission is allowed per student.''"
    by blast
  obtain r2 st2 where eq2: "submit_video (\<lambda>u. None) ''t'' ''s1'' ''s1@example.com'' ?link
      ''General'' example_store = (r2, st2)"
    by (cases "submit_video (\<lambda>u. None) ''t'' ''s1'' ''s1@example.com'' ?link ''General''
                 example_store")
  have none: "get_video_by_student ''s1'' example_store = None"
    by (simp add: get_video_by_student_def example_store_def)
  from eq2 valid none have ok: "sr_success r2 \<and> length (st_videos st2) = 3"
    by (auto simp: submit_video_def Let_def add_video_submission_def example_store_def
        send_video_submission_email_def)
  from submit_video_once [OF eq2] example_store_invariant
  have inv: "\<forall>s. length (filter (\<lambda>(k, v). vs_student_id v = Some s) (st_videos st2)) \<le> 1"
    by blast
  from has first ok inv show ?thesis
    unfolding eq eq2 by simp
qed

section \<open>Properties of the fallback quiz grading\<close>






lemma example_trimmed:
  "qres_is_correct (grade_question ['' a ''] [''A''] 0)"
  by code_simp




section \<open>Properties of the fallback video analysis\<close>






section \<open>Properties of the link validation\<close>

lemma take_id_chars:
  assumes "k \<le> length (takeWhile P s)"
  shows "\<forall>c \<in> set (take k s). P c"
proof -
  have "take k (take (length (takeWhile P s)) s) = take k s"
    using assms by (simp add: min_absorb1)
  then have "take k (takeWhile P s) = take k s"
    by (simp only: takeWhile_eq_take [symmetric])
  then have "set (take k s) \<subseteq> set (takeWhile P s)"
    by (metis set_take_subset)
  then show ?thesis by (auto dest: set_takeWhileD)
qed

lemma id_chars_prefix:
  assumes "\<forall>c \<in> set u. P c"
  shows "length u \<le> length (takeWhile P (u @ v))"
  using assms by (simp add: takeWhile_append2)

lemma re_lang_LitI: "w \<in> re_lang p \<Longrightarrow> c # w \<in> re_lang (Lit c # p)"
  by simp

lemma re_lang_AnyLazyI:
  "newline \<notin> set u \<Longrightarrow> w \<in> re_lang p \<Longrightarrow> u @ w \<in> re_lang (AnyLazy # p)"
  by auto

lemma re_lang_IdGroupI:
  "u \<noteq> [] \<Longrightarrow> \<forall>c \<in> set u. id_char c \<Longrightarrow> w \<in> re_lang p \<Longrightarrow> u @ w \<in> re_lang (IdGroup # p)"
  by auto

lemma re_lang_LitD: "m \<in> re_lang (Lit c # p) \<Longrightarrow> \<exists>w. m = c # w \<and> w \<in> re_lang p"
  by auto

lemma re_lang_AnyLazyD:
  "m \<in> re_lang (AnyLazy # p) \<Longrightarrow> \<exists>u w. m = u @ w \<and> newline \<notin> set u \<and> w \<in> re_lang p"
  by auto

lemma re_lang_IdGroupD:
  "m \<in> re_lang (IdGroup # p) \<Longrightarrow>
   \<exists>u w. m = u @ w \<and> u \<noteq> [] \<and> (\<forall>c \<in> set u. id_char c) \<and> w \<in> re_lang p"
  by auto

text \<open>A pattern occurs at the start of a string.\<close>

lemma starts_Lit:
  "(\<exists>m rest. s = m @ rest \<and> m \<in> re_lang (Lit c # p)) =
   (\<exists>xs. s = c # xs \<and> (\<exists>m rest. xs = m @ rest \<and> m \<in> re_lang p))"
proof
  assume "\<exists>m rest. s = m @ rest \<and> m \<in> re_lang (Lit c # p)"
  then obtain m rest where s: "s = m @ rest" and "m \<in> re_lang (Lit c # p)" by blast
  then obtain w where "m = c # w" and w: "w \<in> re_lang p" by (blast dest: re_lang_LitD)
  with s have "s = c # (w @ rest)" by simp
  with w show "\<exists>xs. s = c # xs \<and> (\<exists>m rest. xs = m @ rest \<and> m \<in> re_lang p)" by blast
next
  assume "\<exists>xs. s = c # xs \<and> (\<exists>m rest. xs = m @ rest \<and> m \<in> re_lang p)"
  then obtain xs m rest where "s = c # xs" "xs = m @ rest" and m: "m \<in> re_lang p" by blast
  then have "s = (c # m) @ rest" by simp
  moreover from m have "c # m \<in> re_lang (Lit c # p)" by (rule re_lang_LitI)
  ultimately show "\<exists>m rest. s = m @ rest \<and> m \<in> re_lang (Lit c # p)" by blast
qed

lemma starts_AnyLazy:
  "(\<exists>m rest. s = m @ rest \<and> m \<in> re_lang (AnyLazy # p)) =
   ((\<exists>m rest. s = m @ rest \<and> m \<in> re_lang p) \<or>
    (\<exists>x xs. s = x # xs \<and> x \<noteq> newline \<and>
       (\<exists>m rest. xs = m @ rest \<and> m \<in> re_lang (AnyLazy # p))))"
proof
  assume "\<exists>m rest. s = m @ rest \<and> m \<in> re_lang (AnyLazy # p)"
  then obtain m rest where s: "s = m @ rest" and "m \<in> re_lang (AnyLazy # p)" by blast
  then obtain u w where m: "m = u @ w" and u: "newline \<notin> set u" and w: "w \<in> re_lang p"
    by (blast dest: re_lang_AnyLazyD)
  show "(\<exists>m rest. s = m @ rest \<and> m \<in> re_lang p) \<or>
    (\<exists>x xs. s = x # xs \<and> x \<noteq> newline \<and>
       (\<exists>m rest. xs = m @ rest \<and> m \<in> re_lang (AnyLazy # p)))"
  proof (cases u)
    case Nil
    with s m have "s = w @ rest" by simp
    with w show ?thesis by blast
  next
    case (Cons y ys)
    with s m have "s = y # ((ys @ w) @ rest)" by simp
    moreover from Cons u have "y \<noteq> newline" "newline \<notin> set ys" by auto
    moreover from this w have "ys @ w \<in> re_lang (AnyLazy # p)" by (intro re_lang_AnyLazyI)
    ultimately show ?thesis by blast
  qed
next
  assume "(\<exists>m rest. s = m @ rest \<and> m \<in> re_lang p) \<or>
    (\<exists>x xs. s = x # xs \<and> x \<noteq> newline \<and>
       (\<exists>m rest. xs = m @ rest \<and> m \<in> re_lang (AnyLazy # p)))"
  then show "\<exists>m rest. s = m @ rest \<and> m \<in> re_lang (AnyLazy # p)"
  proof
    assume "\<exists>m rest. s = m @ rest \<and> m \<in> re_lang p"
    then obtain m rest where "s = m @ rest" and m: "m \<in> re_lang p" by blast
    then have "s = ([] @ m) @ rest" by simp
    moreover from m have "[] @ m \<in> re_lang (AnyLazy # p)" by (intro re_lang_AnyLazyI) simp
    ultimately show ?thesis by blast
  next
    assume "\<exists>x xs. s = x # xs \<and> x \<noteq> newline \<and>
       (\<exists>m rest. xs = m @ rest \<and> m \<in> re_lang (AnyLazy # p))"
    then obtain x xs m rest where s: "s = x # xs" and x: "x \<noteq> newline" and xs: "xs = m @ rest"
      and "m \<in> re_lang (AnyLazy # p)" by blast
    then obtain u w where m: "m = u @ w" and u: "newline \<notin> set u" and w: "w \<in> re_lang p"
      by (blast dest: re_lang_AnyLazyD)
    from s xs m have "s = ((x # u) @ w) @ rest" by simp
    moreover from x u have "newline \<notin> set (x # u)" by auto
    then have "(x # u) @ w \<in> re_lang (AnyLazy # p)" using w by (rule re_lang_AnyLazyI)
    ultimately show ?thesis by blast
  qed
qed

lemma starts_IdGroup:
  "(\<exists>m rest. s = m @ rest \<and> m \<in> re_lang (IdGroup # p)) =
   (\<exists>k. 1 \<le> k \<and> k \<le> length (takeWhile id_char s) \<and>
      (\<exists>m rest. drop k s = m @ rest \<and> m \<in> re_lang p))"
proof
  let ?n = "length (takeWhile id_char s)"
  assume "\<exists>k. 1 \<le> k \<and> k \<le> ?n \<and> (\<exists>m rest. drop k s = m @ rest \<and> m \<in> re_lang p)"
  then obtain k m rest where k: "1 \<le> k" "k \<le> ?n" and d: "drop k s = m @ rest"
    and m: "m \<in> re_lang p" by blast
  have "?n \<le> length s" by (rule length_takeWhile_le)
  with k have "take k s \<noteq> []" by auto
  moreover from k have "\<forall>c \<in> set (take k s). id_char c" by (intro take_id_chars)
  ultimately have "take k s @ m \<in> re_lang (IdGroup # p)" using m by (rule re_lang_IdGroupI)
  moreover have "s = (take k s @ m) @ rest" using d by (metis append_assoc append_take_drop_id)
  ultimately show "\<exists>m rest. s = m @ rest \<and> m \<in> re_lang (IdGroup # p)" by blast
next
  let ?n = "length (takeWhile id_char s)"
  assume "\<exists>m rest. s = m @ rest \<and> m \<in> re_lang (IdGroup # p)"
  then obtain m rest where s0: "s = m @ rest" and "m \<in> re_lang (IdGroup # p)" by blast
  then obtain u w where m: "m = u @ w" and u: "u \<noteq> []" "\<forall>c \<in> set u. id_char c"
    and w: "w \<in> re_lang p" by (blast dest: re_lang_IdGroupD)
  from s0 m have s: "s = u @ (w @ rest)" by simp
  from u(2) have "length u \<le> length (takeWhile id_char (u @ (w @ rest)))"
    by (rule id_chars_prefix)
  with s have "length u \<le> ?n" by simp
  moreover from u have "1 \<le> length u" by (cases u) auto
  moreover from s have "drop (length u) s = w @ rest" by simp
  ultimately show "\<exists>k. 1 \<le> k \<and> k \<le> ?n \<and> (\<exists>m rest. drop k s = m @ rest \<and> m \<in> re_lang p)"
    using w by blast
qed


lemma re_match_lang:
  "(re_match p s g \<noteq> None) = (\<exists>m rest. s = m @ rest \<and> m \<in> re_lang p)"
  "(re_group p s n \<noteq> None) =
     (\<exists>k. 1 \<le> k \<and> k \<le> n \<and> (\<exists>m rest. drop k s = m @ rest \<and> m \<in> re_lang p))"
proof (induction p s g and p s n rule: re_match_re_group.induct)
  case (1 s g)
  then show ?case by simp
next
  case (2 c p s g)
  show ?case
  proof (cases s)
    case Nil
    then show ?thesis unfolding starts_Lit by simp
  next
    case (Cons x xs)
    show ?thesis
    proof (cases "x = c")
      case True
      with Cons 2 show ?thesis unfolding starts_Lit by simp
    next
      case False
      with Cons show ?thesis unfolding starts_Lit by simp
    qed
  qed
next
  case (3 p s g)
  show ?case
  proof (cases "re_match p s g")
    case (Some r)
    with 3(1) have "\<exists>m rest. s = m @ rest \<and> m \<in> re_lang p" by simp
    with Some show ?thesis unfolding starts_AnyLazy [of s p] by simp
  next
    case None
    with 3(1) have nom: "\<not> (\<exists>m rest. s = m @ rest \<and> m \<in> re_lang p)" by simp
    show ?thesis
    proof (cases s)
      case Nil
      with None nom show ?thesis unfolding starts_AnyLazy [of s p] by simp
    next
      case (Cons x xs)
      show ?thesis
      proof (cases "x = newline")
        case True
        with None nom Cons show ?thesis unfolding starts_AnyLazy [of s p] by simp
      next
        case False
        from 3(2) [OF None Cons False]
        have ih: "(re_match (AnyLazy # p) xs g \<noteq> None) =
            (\<exists>m rest. xs = m @ rest \<and> m \<in> re_lang (AnyLazy # p))" .
        have lhs: "re_match (AnyLazy # p) s g = re_match (AnyLazy # p) xs g"
          using None Cons False by simp
        have rhs: "(\<exists>m rest. s = m @ rest \<and> m \<in> re_lang (AnyLazy # p)) =
            (\<exists>m rest. xs = m @ rest \<and> m \<in> re_lang (AnyLazy # p))"
        proof -
          have "(\<exists>y ys. s = y # ys \<and> y \<noteq> newline \<and>
                  (\<exists>m rest. ys = m @ rest \<and> m \<in> re_lang (AnyLazy # p))) =
                (\<exists>m rest. xs = m @ rest \<and> m \<in> re_lang (AnyLazy # p))"
            using Cons False by (simp del: re_lang.simps)
          with nom show ?thesis
            unfolding starts_AnyLazy [of s p] by (simp only: simp_thms)
        qed
        show ?thesis by (simp only: lhs ih rhs)
      qed
    qed
  qed
next
  case (4 p s g)
  then show ?case unfolding starts_IdGroup by simp
next
  case (5 p s)
  then show ?case by simp
next
  case (6 p s n)
  show ?case
  proof (cases "re_match p (drop (Suc n) s) (take (Suc n) s)")
    case (Some r)
    with 6(1) have "\<exists>m rest. drop (Suc n) s = m @ rest \<and> m \<in> re_lang p" by simp
    then have "\<exists>k. 1 \<le> k \<and> k \<le> Suc n \<and> (\<exists>m rest. drop k s = m @ rest \<and> m \<in> re_lang p)"
      by (intro exI [of _ "Suc n"]) simp
    with Some show ?thesis by simp
  next
    case None
    with 6(1) have no: "\<not> (\<exists>m rest. drop (Suc n) s = m @ rest \<and> m \<in> re_lang p)" by simp
    have "(\<exists>k. 1 \<le> k \<and> k \<le> Suc n \<and> (\<exists>m rest. drop k s = m @ rest \<and> m \<in> re_lang p)) =
          (\<exists>k. 1 \<le> k \<and> k \<le> n \<and> (\<exists>m rest. drop k s = m @ rest \<and> m \<in> re_lang p))"
      using no by (metis le_Suc_eq)
    with 6(2) [OF None] None show ?thesis by simp
  qed
qed

end
